theory Spec2Isabelle
  imports Complex_Main
begin

section \<open>Python strings\<close>

text \<open>
  A Python \<open>str\<close> is a sequence of Unicode code points; it is modelled as the list of
  its code points. \<open>str\<close> turns an ASCII literal of the source into that form.
\<close>

type_synonym pystr = "nat list"

definition str :: "string \<Rightarrow> pystr" where
  "str s = map of_char s"

text \<open>
  \<open>str.isspace\<close> on one code point: the white space that \<open>str.strip()\<close> removes when it
  is called without an argument.
\<close>

definition isspace :: "nat \<Rightarrow> bool" where
  "isspace c \<longleftrightarrow>
     (0x9 \<le> c \<and> c \<le> 0xD) \<or> (0x1C \<le> c \<and> c \<le> 0x20) \<or> c = 0x85 \<or> c = 0xA0 \<or>
     c = 0x1680 \<or> (0x2000 \<le> c \<and> c \<le> 0x200A) \<or> c = 0x2028 \<or> c = 0x2029 \<or>
     c = 0x202F \<or> c = 0x205F \<or> c = 0x3000"

definition strip :: "pystr \<Rightarrow> pystr" where
  "strip s = rev (dropWhile isspace (rev (dropWhile isspace s)))"

text \<open>
  \<open>str.lower()\<close>: on a string of ASCII code points only the letters A to Z change.
  On a string that holds a code point beyond ASCII the result is given by the Unicode
  case tables of the interpreter, which are not part of the repository: that part is
  the parameter \<open>ul\<close>.
\<close>

definition ascii_lower :: "nat \<Rightarrow> nat" where
  "ascii_lower c = (if 0x41 \<le> c \<and> c \<le> 0x5A then c + 0x20 else c)"

definition lower :: "(pystr \<Rightarrow> pystr) \<Rightarrow> pystr \<Rightarrow> pystr" where
  "lower ul s = (if list_all (\<lambda>c. c < 0x80) s then map ascii_lower s else ul s)"

text \<open>\<open>s.replace(old, new)\<close> for one-character \<open>old\<close> and \<open>new\<close>.\<close>

definition replace :: "nat \<Rightarrow> nat \<Rightarrow> pystr \<Rightarrow> pystr" where
  "replace old new s = map (\<lambda>c. if c = old then new else c) s"

text \<open>\<open>sep.join(parts)\<close>.\<close>

fun join :: "pystr \<Rightarrow> pystr list \<Rightarrow> pystr" where
  "join sep [] = []"
| "join sep [p] = p"
| "join sep (p # q # ps) = p @ sep @ join sep (q # ps)"

text \<open>
  A string that is not empty and has no white space at either end: what \<open>strip\<close>
  returns when it does not return the empty string.
\<close>

definition trimmed :: "pystr \<Rightarrow> bool" where
  "trimmed s \<longleftrightarrow> s \<noteq> [] \<and> \<not> isspace (hd s) \<and> \<not> isspace (last s)"

section \<open>Language-code resolver\<close>

text \<open>
  The dictionary \<open>_ESPEAK_LANG_MAP\<close> (\<open>pipeline.py\<close>, lines 19 to 60), in the order of
  the source. Its keys are distinct, so \<open>map_of\<close> is the dictionary's lookup.
\<close>

definition ESPEAK_LANG_MAP :: "(pystr \<times> pystr) list" where
  "ESPEAK_LANG_MAP = map (\<lambda>(k, v). (str k, str v))
     [(''af'', ''af''), (''ar'', ''ar''), (''bn'', ''bn''), (''cs'', ''cs''),
      (''da'', ''da''), (''de'', ''de''), (''el'', ''el''), (''en'', ''en-us''),
      (''en-us'', ''en-us''), (''en-gb'', ''en-gb''), (''es'', ''es''), (''fi'', ''fi''),
      (''fr'', ''fr-fr''), (''gu'', ''gu''), (''hi'', ''hi''), (''hu'', ''hu''),
      (''id'', ''id''), (''it'', ''it''), (''ja'', ''ja''), (''ko'', ''ko''),
      (''mr'', ''mr''), (''nb'', ''nb''), (''nl'', ''nl''), (''pl'', ''pl''),
      (''pt'', ''pt-br''), (''pt-br'', ''pt-br''), (''pt-pt'', ''pt''), (''ro'', ''ro''),
      (''ru'', ''ru''), (''sv'', ''sv''), (''ta'', ''ta''), (''te'', ''te''),
      (''th'', ''th''), (''tr'', ''tr''), (''uk'', ''uk''), (''ur'', ''ur''),
      (''vi'', ''vi''), (''zh'', ''zh''), (''zh-cn'', ''zh''), (''zh-tw'', ''zh'')]"

text \<open>
  \<open>_normalise_lang_code\<close> (lines 65 to 68) and \<open>_resolve_espeak_language\<close> (lines 71
  to 90). \<open>not language_hint\<close> and \<open>not normalised\<close> hold for \<open>None\<close> and for the
  empty string; \<open>normalised.split("-", 1)[0]\<close> is the part before the first hyphen.
\<close>

definition normalise_lang_code :: "(pystr \<Rightarrow> pystr) \<Rightarrow> pystr option \<Rightarrow> pystr option" where
  "normalise_lang_code ul code =
     (case code of
        None \<Rightarrow> None
      | Some c \<Rightarrow> Some (replace 0x5F 0x2D (strip (lower ul c))))"

definition resolve_espeak_language :: "(pystr \<Rightarrow> pystr) \<Rightarrow> pystr option \<Rightarrow> pystr" where
  "resolve_espeak_language ul language_hint =
     (case language_hint of
        None \<Rightarrow> str ''en-us''
      | Some h \<Rightarrow>
          if h = [] then str ''en-us''
          else
            (case normalise_lang_code ul (Some h) of
               None \<Rightarrow> str ''en-us''
             | Some normalised \<Rightarrow>
                 if normalised = [] then str ''en-us''
                 else
                   (case map_of ESPEAK_LANG_MAP normalised of
                      Some v \<Rightarrow> v
                    | None \<Rightarrow>
                        if 0x2D \<in> set normalised then
                          (let base = takeWhile (\<lambda>c. c \<noteq> 0x2D) normalised
                           in case map_of ESPEAK_LANG_MAP base of
                                Some v \<Rightarrow> v
                              | None \<Rightarrow> normalised)
                        else normalised)))"

text \<open>
  The resolver as the specification words it for a non-empty hint: normalise, look the
  code up, retry with the base subtag when the code has a hyphen, else pass the
  normalised code through. It is compared with the source's function below.
\<close>

definition resolve_as_specified :: "(pystr \<Rightarrow> pystr) \<Rightarrow> pystr \<Rightarrow> pystr" where
  "resolve_as_specified ul h =
     (let n = replace 0x5F 0x2D (strip (lower ul h))
      in case map_of ESPEAK_LANG_MAP n of
           Some v \<Rightarrow> v
         | None \<Rightarrow>
             (if 0x2D \<in> set n
              then (case map_of ESPEAK_LANG_MAP (takeWhile (\<lambda>c. c \<noteq> 0x2D) n) of
                      Some v \<Rightarrow> v
                    | None \<Rightarrow> n)
              else n))"

text \<open>A code made of the letters a to z and hyphens only, and not empty.\<close>

definition plain_code :: "pystr \<Rightarrow> bool" where
  "plain_code k \<longleftrightarrow> k \<noteq> [] \<and> list_all (\<lambda>c. (0x61 \<le> c \<and> c \<le> 0x7A) \<or> c = 0x2D) k"

section \<open>Exceptions, collaborators and the record of their calls\<close>

text \<open>
  The error numbers that matter to \<open>Path.exists()\<close>, by name (their values depend on
  the platform), and the outcome of \<open>os.stat\<close> on a path: success, an \<open>OSError\<close>
  with its \<open>errno\<close> and, on Windows, its \<open>winerror\<close>, or the \<open>ValueError\<close> of a path
  that cannot be encoded.
\<close>

datatype errno = ENOENT | ENOTDIR | EBADF | ELOOP | ENAMETOOLONG | EACCES | OtherErrno nat

datatype stat_result = StatOk | StatOSError errno "nat option" | StatValueError

text \<open>
  The exceptions the pipeline meets. \<open>RuntimeError msg cause\<close> stands for any instance
  of \<open>RuntimeError\<close> (what \<open>except RuntimeError\<close> catches) with its message and its
  \<open>__cause__\<close>; \<open>OSError errno winerror\<close> is an \<open>OSError\<close> that \<open>Path.exists()\<close> lets
  through; \<open>OtherError\<close> is an exception of any other class.
\<close>

datatype pyexc =
    FileNotFoundError pystr
  | OSError errno "nat option"
  | RuntimeError pystr "pyexc option"
  | OtherError pystr

text \<open>
  The calls made to the two engines, in the order they happen: the constructor
  \<open>WhisperModel(model_size, device, compute_type)\<close>, the call
  \<open>model.transcribe(path, language, vad_filter)\<close> (whose other arguments are the
  constants \<open>beam_size=1\<close>, \<open>best_of=1\<close>, \<open>temperature=0.0\<close>), and the call
  \<open>phonemize(text, language)\<close> (whose other arguments are constants as well).
\<close>

datatype event =
    LoadModel pystr pystr pystr
  | Transcribe pystr "pystr option" bool
  | Phonemize pystr pystr

text \<open>
  A segment as the recognizer yields it. Floats are only copied by the pipeline, so
  their type is a parameter. The two optional attributes are read with
  \<open>getattr(segment, name, None)\<close>: \<open>None\<close> stands for an absent attribute too.
\<close>

record 'f raw_segment =
  raw_start :: 'f
  raw_end :: 'f
  raw_text :: pystr
  raw_avg_logprob :: "'f option"
  raw_no_speech_prob :: "'f option"

text \<open>
  The lazy sequence of segments: each request for the next segment yields one, ends
  the sequence, or raises.
\<close>

datatype 'f segments_iter =
    StopIteration
  | Yield "'f raw_segment" "'f segments_iter"
  | Raise pyexc

record 'f transcription_info =
  info_language :: "pystr option"
  info_language_probability :: "'f option"
  info_duration :: "'f option"

text \<open>
  Everything outside the repository that the pipeline consults: the Unicode part of
  \<open>str.lower\<close>, the rendering \<open>str(Path(p))\<close> of a path and the file system's
  \<open>os.stat\<close> on it, the recognizer's constructor (\<open>Some e\<close> when it raises \<open>e\<close>) and
  its \<open>transcribe\<close> method (which takes the constructor's arguments first, as the
  model object is made from them), and the phonemization engine.
\<close>

record 'f world =
  unicode_lower :: "pystr \<Rightarrow> pystr"
  Path :: "pystr \<Rightarrow> pystr"
  os_stat :: "pystr \<Rightarrow> stat_result"
  WhisperModel :: "pystr \<Rightarrow> pystr \<Rightarrow> pystr \<Rightarrow> pyexc option"
  model_transcribe ::
    "pystr \<Rightarrow> pystr \<Rightarrow> pystr \<Rightarrow> pystr \<Rightarrow> pystr option \<Rightarrow> bool \<Rightarrow>
     pyexc + ('f segments_iter \<times> 'f transcription_info)"
  phonemize :: "pystr \<Rightarrow> pystr \<Rightarrow> pyexc + pystr"

text \<open>
  \<open>Path.exists()\<close> as \<open>pathlib\<close> defines it: it calls \<open>stat\<close>, returns \<open>False\<close> for
  a \<open>ValueError\<close> and for an \<open>OSError\<close> whose \<open>errno\<close> is \<open>ENOENT\<close>, \<open>ENOTDIR\<close>,
  \<open>EBADF\<close> or \<open>ELOOP\<close> or whose \<open>winerror\<close> is 21, 123 or 1921, and raises any other
  \<open>OSError\<close> again.
\<close>

definition ignore_error :: "errno \<Rightarrow> nat option \<Rightarrow> bool" where
  "ignore_error e winerror \<longleftrightarrow>
     e = ENOENT \<or> e = ENOTDIR \<or> e = EBADF \<or> e = ELOOP \<or>
     (case winerror of None \<Rightarrow> False | Some n \<Rightarrow> n = 21 \<or> n = 123 \<or> n = 1921)"

definition path_exists :: "('f, 'x) world_scheme \<Rightarrow> pystr \<Rightarrow> pyexc + bool" where
  "path_exists w p =
     (case os_stat w p of
        StatOk \<Rightarrow> Inr True
      | StatValueError \<Rightarrow> Inr False
      | StatOSError e winerror \<Rightarrow>
          if ignore_error e winerror then Inr False else Inl (OSError e winerror))"

section \<open>Result model\<close>

text \<open>
  The fields of \<open>SegmentResult\<close> carry the prefix \<open>seg\<close>; \<open>TranscriptionResult\<close>
  keeps the names of the source, but for \<open>text\<close>, which is \<open>full_text\<close> here.
\<close>

record 'f SegmentResult =
  seg_start :: 'f
  seg_end :: 'f
  seg_text :: pystr
  seg_ipa :: pystr
  seg_avg_logprob :: "'f option"
  seg_no_speech_prob :: "'f option"

record 'f TranscriptionResult =
  audio_path :: pystr
  full_text :: pystr
  ipa :: pystr
  segments :: "'f SegmentResult list"
  language :: pystr
  language_confidence :: "'f option"
  duration :: "'f option"
  model_size :: pystr
  ipa_language :: pystr

section \<open>Phonemization adapter\<close>

text \<open>
  \<open>_phonemize_text\<close> (lines 132 to 150), with the record of calls so far as an argument
  and the extended record as a second result. \<open>phonemize_failed\<close> is the message of
  the \<open>RuntimeError\<close> it raises; \<open>0x27\<close> is the single quote around the language code.
  An exception of the engine that is not a \<open>RuntimeError\<close> passes through unchanged.
\<close>

definition phonemize_failed :: "pystr \<Rightarrow> pystr" where
  "phonemize_failed ipa_lang =
     str ''Failed to phonemize text. Ensure espeak-ng is installed and the language ''
     @ [0x27] @ ipa_lang @ [0x27] @ str '' is supported.''"

definition phonemize_text ::
  "('f, 'x) world_scheme \<Rightarrow> pystr \<Rightarrow> pystr \<Rightarrow> event list \<Rightarrow> (pyexc + pystr) \<times> event list"
where
  "phonemize_text w txt ipa_lang tr =
     (if strip txt = [] then (Inr [], tr)
      else
        (case phonemize w txt ipa_lang of
           Inr out \<Rightarrow> (Inr out, tr @ [Phonemize txt ipa_lang])
         | Inl (RuntimeError m c) \<Rightarrow>
             (Inl (RuntimeError (phonemize_failed ipa_lang) (Some (RuntimeError m c))),
              tr @ [Phonemize txt ipa_lang])
         | Inl e \<Rightarrow> (Inl e, tr @ [Phonemize txt ipa_lang])))"

section \<open>Pipeline orchestrator\<close>

text \<open>
  \<open>transcribe_audio_to_ipa\<close> (lines 153 to 218). Its arguments are gathered in a
  record; the path is given as a string.
\<close>

record transcribe_args =
  arg_audio_path :: pystr
  arg_model_size :: pystr
  arg_language :: "pystr option"
  arg_ipa_language :: "pystr option"
  arg_device :: pystr
  arg_compute_type :: "pystr option"
  arg_vad_filter :: bool

text \<open>The defaults of the keyword arguments.\<close>

definition default_args :: "pystr \<Rightarrow> transcribe_args" where
  "default_args p =
     \<lparr>arg_audio_path = p, arg_model_size = str ''small'', arg_language = None,
      arg_ipa_language = None, arg_device = str ''cpu'', arg_compute_type = None,
      arg_vad_filter = True\<rparr>"

text \<open>
  \<open>a or b\<close> on an optional string \<open>a\<close>: \<open>None\<close> and the empty string are false. The
  next three definitions are line 170, line 182 (\<open>language or info.language or ""\<close>)
  and line 183 (\<open>ipa_language or _resolve_espeak_language(recognised_language)\<close>).
\<close>

definition truthy :: "pystr option \<Rightarrow> bool" where
  "truthy a = (case a of None \<Rightarrow> False | Some s \<Rightarrow> s \<noteq> [])"

definition selected_compute_type :: "transcribe_args \<Rightarrow> pystr" where
  "selected_compute_type a =
     (case arg_compute_type a of
        None \<Rightarrow> (if arg_device a = str ''cpu'' then str ''int8'' else str ''auto'')
      | Some c \<Rightarrow> c)"

definition recognised_language :: "transcribe_args \<Rightarrow> 'f transcription_info \<Rightarrow> pystr" where
  "recognised_language a info =
     (if truthy (arg_language a) then the (arg_language a)
      else if truthy (info_language info) then the (info_language info)
      else [])"

definition ipa_code :: "('f, 'x) world_scheme \<Rightarrow> transcribe_args \<Rightarrow> 'f transcription_info \<Rightarrow> pystr" where
  "ipa_code w a info =
     (if truthy (arg_ipa_language a) then the (arg_ipa_language a)
      else resolve_espeak_language (unicode_lower w) (Some (recognised_language a info)))"

text \<open>
  The loop over the segments (lines 188 to 203), with the two lists it appends to and
  the record of calls so far. An exception of the sequence or of the adapter ends the
  run, and both lists are lost with it; so the model hands both appended lists on
  after the adapter has returned, where the source appends to \<open>full_text_parts\<close>
  before the call and to \<open>segments\<close> after it.
\<close>

fun segment_loop ::
  "('f, 'x) world_scheme \<Rightarrow> pystr \<Rightarrow> 'f segments_iter \<Rightarrow> 'f SegmentResult list \<Rightarrow> pystr list \<Rightarrow>
   event list \<Rightarrow> (pyexc + ('f SegmentResult list \<times> pystr list)) \<times> event list"
where
  "segment_loop w code StopIteration segs full_text_parts tr = (Inr (segs, full_text_parts), tr)"
| "segment_loop w code (Raise e) segs full_text_parts tr = (Inl e, tr)"
| "segment_loop w code (Yield segment rest) segs full_text_parts tr =
     (let segment_text = strip (raw_text segment)
      in if segment_text = [] then segment_loop w code rest segs full_text_parts tr
         else
           (case phonemize_text w segment_text code tr of
              (Inl e, tr') \<Rightarrow> (Inl e, tr')
            | (Inr segment_ipa, tr') \<Rightarrow>
                segment_loop w code rest
                  (segs @ [\<lparr>seg_start = raw_start segment, seg_end = raw_end segment,
                             seg_text = segment_text, seg_ipa = segment_ipa,
                             seg_avg_logprob = raw_avg_logprob segment,
                             seg_no_speech_prob = raw_no_speech_prob segment\<rparr>])
                  (full_text_parts @ [segment_text]) tr'))"

text \<open>The call of the recognizer's \<open>transcribe\<close> with the arguments the orchestrator gives it.\<close>

definition recognizer_output ::
  "('f, 'x) world_scheme \<Rightarrow> transcribe_args \<Rightarrow> pyexc + ('f segments_iter \<times> 'f transcription_info)"
where
  "recognizer_output w a =
     model_transcribe w (arg_model_size a) (arg_device a) (selected_compute_type a)
       (Path w (arg_audio_path a)) (arg_language a) (arg_vad_filter a)"

definition transcribe_audio_to_ipa ::
  "('f, 'x) world_scheme \<Rightarrow> transcribe_args \<Rightarrow> (pyexc + 'f TranscriptionResult) \<times> event list"
where
  "transcribe_audio_to_ipa w a =
     (let resolved_audio_path = Path w (arg_audio_path a)
      in case path_exists w resolved_audio_path of
           Inl e \<Rightarrow> (Inl e, [])
         | Inr False \<Rightarrow>
             (Inl (FileNotFoundError (str ''Audio file not found: '' @ resolved_audio_path)), [])
         | Inr True \<Rightarrow>
           (let compute_type = selected_compute_type a;
                tr1 = [LoadModel (arg_model_size a) (arg_device a) compute_type]
            in case WhisperModel w (arg_model_size a) (arg_device a) compute_type of
                 Some e \<Rightarrow> (Inl e, tr1)
               | None \<Rightarrow>
                   (let tr2 = tr1 @ [Transcribe resolved_audio_path (arg_language a) (arg_vad_filter a)]
                    in case recognizer_output w a of
                         Inl e \<Rightarrow> (Inl e, tr2)
                       | Inr (segments_iter, info) \<Rightarrow>
                           (let code = ipa_code w a info
                            in case segment_loop w code segments_iter [] [] tr2 of
                                 (Inl e, tr3) \<Rightarrow> (Inl e, tr3)
                               | (Inr (segs, full_text_parts), tr3) \<Rightarrow>
                                   (let text_joined = strip (join (str '' '') full_text_parts)
                                    in case (if text_joined \<noteq> []
                                             then phonemize_text w text_joined code tr3
                                             else (Inr [], tr3)) of
                                         (Inl e, tr4) \<Rightarrow> (Inl e, tr4)
                                       | (Inr full_ipa, tr4) \<Rightarrow>
                                           (Inr \<lparr>audio_path = resolved_audio_path,
                                                 full_text = text_joined,
                                                 ipa = full_ipa,
                                                 segments = segs,
                                                 language = recognised_language a info,
                                                 language_confidence = info_language_probability info,
                                                 duration = info_duration info,
                                                 model_size = arg_model_size a,
                                                 ipa_language = code\<rparr>, tr4))))))"

text \<open>What a sequence yields before it ends, and whether it ends without raising.\<close>

fun yielded :: "'f segments_iter \<Rightarrow> 'f raw_segment list" where
  "yielded StopIteration = []"
| "yielded (Raise e) = []"
| "yielded (Yield s rest) = s # yielded rest"

fun completes :: "'f segments_iter \<Rightarrow> bool" where
  "completes StopIteration = True"
| "completes (Raise e) = False"
| "completes (Yield s rest) = completes rest"

fun of_list :: "'f raw_segment list \<Rightarrow> 'f segments_iter" where
  "of_list [] = StopIteration"
| "of_list (s # ss) = Yield s (of_list ss)"

text \<open>
  The segments the loop keeps, and the relation between a kept segment and the
  \<open>SegmentResult\<close> built from it: the times and the optional attributes are copied,
  the text is the stripped text, and the IPA is what the engine returned for that text.
\<close>

definition kept :: "'f raw_segment list \<Rightarrow> 'f raw_segment list" where
  "kept raws = filter (\<lambda>s. strip (raw_text s) \<noteq> []) raws"

definition segment_of :: "('f, 'x) world_scheme \<Rightarrow> pystr \<Rightarrow> 'f SegmentResult \<Rightarrow> 'f raw_segment \<Rightarrow> bool" where
  "segment_of w code seg raw \<longleftrightarrow>
     seg_start seg = raw_start raw \<and> seg_end seg = raw_end raw \<and>
     seg_text seg = strip (raw_text raw) \<and>
     phonemize w (seg_text seg) code = Inr (seg_ipa seg) \<and>
     seg_avg_logprob seg = raw_avg_logprob raw \<and>
     seg_no_speech_prob seg = raw_no_speech_prob raw"

section \<open>Structured form and JSON\<close>














































section \<open>A stub recognizer and a stub phonemizer\<close>

text \<open>
  Stand-ins for the two engines, as a test of the pipeline sets them up: one audio
  file \<open>hello.wav\<close> exists, \<open>os.stat\<close> fails with \<open>ENAMETOOLONG\<close> on a name of more
  than 255 characters and with \<open>ENOENT\<close> on any other, the recognizer yields a given list of segments and
  reports the language "en" with confidence 0.95 and duration 2.0, and the phonemizer
  puts its input between two slashes. \<open>failing_world\<close> has a phonemizer that always
  raises \<open>RuntimeError\<close>.
\<close>

definition stub_engine :: "pystr \<Rightarrow> pystr \<Rightarrow> pyexc + pystr" where
  "stub_engine t l = Inr (str ''/'' @ t @ str ''/'')"

definition stub_segment :: "real \<Rightarrow> real \<Rightarrow> string \<Rightarrow> real raw_segment" where
  "stub_segment s e t =
     \<lparr>raw_start = s, raw_end = e, raw_text = str t, raw_avg_logprob = None,
      raw_no_speech_prob = None\<rparr>"

definition stub_info :: "real transcription_info" where
  "stub_info = \<lparr>info_language = Some (str ''en''), info_language_probability = Some 0.95,
      info_duration = Some 2.0\<rparr>"

definition stub_world :: "real raw_segment list \<Rightarrow> real world" where
  "stub_world raws =
     \<lparr>unicode_lower = id, Path = id,
      os_stat = (\<lambda>p. if 255 < length p then StatOSError ENAMETOOLONG None
                     else if p = str ''hello.wav'' then StatOk
                     else StatOSError ENOENT None),
      WhisperModel = (\<lambda>m d c. None),
      model_transcribe = (\<lambda>m d c p l v. Inr (of_list raws, stub_info)),
      phonemize = stub_engine\<rparr>"

definition hello_raws :: "real raw_segment list" where
  "hello_raws = [stub_segment 0 1.2 ''Hello'', stub_segment 1.2 2 '''']"

definition hi_there_raws :: "real raw_segment list" where
  "hi_there_raws = [stub_segment 0 1 '' Hi'', stub_segment 1 2 ''  '', stub_segment 2 3 ''there '']"

definition failing_world :: "real world" where
  "failing_world = (stub_world hello_raws)
     \<lparr>phonemize := (\<lambda>t l. Inl (RuntimeError (str ''espeak not installed'') None))\<rparr>"




section \<open>Properties of the string operations\<close>

lemma strip_no_space:
  assumes "\<forall>c\<in>set s. \<not> isspace c"
  shows "strip s = s"
proof -
  have "dropWhile isspace s = s"
    using assms by (intro dropWhile_id) simp
  moreover have "dropWhile isspace (rev s) = rev s"
    using assms by (intro dropWhile_id) simp
  ultimately show ?thesis by (simp add: strip_def)
qed

lemma strip_Nil: "strip [] = []"
  by (simp add: strip_def)

lemma strip_trimmed:
  assumes "strip s \<noteq> []"
  shows "trimmed (strip s)"
proof -
  let ?d = "dropWhile isspace s"
  let ?r = "dropWhile isspace (rev ?d)"
  have d: "?d \<noteq> []"
  proof
    assume e: "?d = []"
    have "strip s = rev (dropWhile isspace (rev ?d))" by (simp only: strip_def)
    also have "\<dots> = []" by (simp only: e rev.simps dropWhile.simps)
    finally show False using assms by simp
  qed
  then have hd: "\<not> isspace (hd ?d)" by (rule hd_dropWhile)
  have hdin: "hd ?d \<in> set (rev ?d)" using d by simp
  from assms have r: "?r \<noteq> []" by (simp add: strip_def)
  then have hr: "\<not> isspace (hd ?r)" by (rule hd_dropWhile)
  have "last ?r = last (rev ?d)" using hdin hd by (rule dropWhile_last)
  then have lr: "last ?r = hd ?d" using d by (simp add: last_rev)
  have "hd (strip s) = last ?r" using r by (simp add: strip_def hd_rev)
  moreover have "last (strip s) = hd ?r" using r by (simp add: strip_def last_rev)
  ultimately show ?thesis using assms hr hd lr by (simp add: trimmed_def)
qed

lemma strip_of_trimmed:
  assumes "trimmed s"
  shows "strip s = s"
proof -
  from assms have ne: "s \<noteq> []" and h: "\<not> isspace (hd s)" and l: "\<not> isspace (last s)"
    by (simp_all add: trimmed_def)
  have 1: "dropWhile isspace s = s"
    using h by (simp add: dropWhile_eq_self_iff)
  have 2: "dropWhile isspace (rev s) = rev s"
    using l ne by (simp add: dropWhile_eq_self_iff hd_rev)
  show ?thesis by (simp add: strip_def 1 2)
qed

lemma strip_strip: "strip (strip s) = strip s"
  by (cases "strip s = []") (simp_all add: strip_Nil strip_of_trimmed strip_trimmed)

lemma set_strip: "set (strip s) \<subseteq> set s"
proof -
  have "set (strip s) = set (dropWhile isspace (rev (dropWhile isspace s)))"
    by (simp add: strip_def)
  also have "\<dots> \<subseteq> set (rev (dropWhile isspace s))"
    by (auto dest: set_dropWhileD)
  also have "\<dots> \<subseteq> set s"
    by (auto dest: set_dropWhileD)
  finally show ?thesis .
qed

lemma replace_trimmed:
  assumes "trimmed s"
  shows "trimmed (replace 0x5F 0x2D s)"
proof -
  from assms have ne: "s \<noteq> []" and h: "\<not> isspace (hd s)" and l: "\<not> isspace (last s)"
    by (simp_all add: trimmed_def)
  have k: "\<not> isspace c \<Longrightarrow> \<not> isspace (if c = 0x5F then 0x2D else c)" for c
    by (simp add: isspace_def)
  show ?thesis
    using ne k [OF h] k [OF l]
    by (simp add: trimmed_def replace_def hd_map last_map)
qed

lemma join_trimmed:
  assumes "\<forall>p\<in>set ps. trimmed p" and "ps \<noteq> []"
  shows "trimmed (join sep ps)"
  using assms
proof (induction sep ps rule: join.induct)
  case (3 sep p q ps)
  then have t: "trimmed (join sep (q # ps))" and p: "trimmed p" by simp_all
  then show ?case by (auto simp: trimmed_def)
qed simp_all

lemma strip_join:
  assumes "\<forall>p\<in>set ps. trimmed p"
  shows "strip (join sep ps) = join sep ps"
proof (cases ps)
  case Nil then show ?thesis by (simp add: strip_Nil)
next
  case Cons
  then show ?thesis using assms join_trimmed [of ps sep] by (simp add: strip_of_trimmed)
qed

section \<open>Properties of the resolver\<close>

lemmas resolver_defs =
  resolve_espeak_language_def normalise_lang_code_def lower_def ascii_lower_def
  strip_def isspace_def replace_def ESPEAK_LANG_MAP_def str_def

lemma normalise_plain:
  assumes "plain_code k"
  shows "normalise_lang_code ul (Some k) = Some k"
proof -
  have a: "\<forall>c\<in>set k. (0x61 \<le> c \<and> c \<le> 0x7A) \<or> c = 0x2D"
    using assms by (simp add: plain_code_def list_all_iff)
  have 1: "lower ul k = k"
    using a by (auto simp: lower_def list_all_iff ascii_lower_def intro!: map_idI)
  have 2: "strip k = k"
    using a by (intro strip_no_space) (auto simp: isspace_def)
  have 3: "replace 0x5F 0x2D k = k"
    using a by (auto simp: replace_def intro!: map_idI)
  show ?thesis by (simp add: normalise_lang_code_def 1 2 3)
qed

lemma keys_plain: "list_all (\<lambda>(k, v). plain_code k) ESPEAK_LANG_MAP"
  by (simp add: ESPEAK_LANG_MAP_def str_def plain_code_def)

lemma keys_distinct: "distinct (map fst ESPEAK_LANG_MAP)"
  by (simp add: ESPEAK_LANG_MAP_def str_def)

lemma resolve_key:
  assumes "map_of ESPEAK_LANG_MAP k = Some v"
  shows "resolve_espeak_language ul (Some k) = v"
proof -
  have "(k, v) \<in> set ESPEAK_LANG_MAP"
    using assms by (rule map_of_SomeD)
  then have p: "plain_code k"
    using keys_plain by (auto simp: list_all_iff)
  then have "k \<noteq> []"
    by (simp add: plain_code_def)
  then show ?thesis
    by (simp add: resolve_espeak_language_def normalise_plain [OF p] assms)
qed

text \<open>
  Claim C1. For every key of the static language table the resolver returns the value
  the table maps it to; in particular "en" gives "en-us", "pt" gives "pt-br", and "zh",
  "zh-cn" and "zh-tw" all give "zh". For an absent hint and for the empty hint it
  returns the default "en-us".
\<close>

theorem resolve_table_and_default:
  "(map_of ESPEAK_LANG_MAP k = Some v \<longrightarrow> resolve_espeak_language ul (Some k) = v) \<and>
   resolve_espeak_language ul (Some (str ''en'')) = str ''en-us'' \<and>
   resolve_espeak_language ul (Some (str ''pt'')) = str ''pt-br'' \<and>
   resolve_espeak_language ul (Some (str ''zh'')) = str ''zh'' \<and>
   resolve_espeak_language ul (Some (str ''zh-cn'')) = str ''zh'' \<and>
   resolve_espeak_language ul (Some (str ''zh-tw'')) = str ''zh'' \<and>
   resolve_espeak_language ul None = str ''en-us'' \<and>
   resolve_espeak_language ul (Some []) = str ''en-us''"
proof -
  have en: "map_of ESPEAK_LANG_MAP (str ''en'') = Some (str ''en-us'')"
    by (simp add: ESPEAK_LANG_MAP_def str_def)
  have pt: "map_of ESPEAK_LANG_MAP (str ''pt'') = Some (str ''pt-br'')"
    by (simp add: ESPEAK_LANG_MAP_def str_def)
  have zh: "map_of ESPEAK_LANG_MAP (str ''zh'') = Some (str ''zh'')"
    by (simp add: ESPEAK_LANG_MAP_def str_def)
  have cn: "map_of ESPEAK_LANG_MAP (str ''zh-cn'') = Some (str ''zh'')"
    by (simp add: ESPEAK_LANG_MAP_def str_def)
  have tw: "map_of ESPEAK_LANG_MAP (str ''zh-tw'') = Some (str ''zh'')"
    by (simp add: ESPEAK_LANG_MAP_def str_def)
  have none: "resolve_espeak_language ul None = str ''en-us''"
    by (simp add: resolve_espeak_language_def)
  have empty: "resolve_espeak_language ul (Some []) = str ''en-us''"
    by (simp add: resolve_espeak_language_def)
  show ?thesis
    using resolve_key [OF en] resolve_key [OF pt] resolve_key [OF zh] resolve_key [OF cn]
      resolve_key [OF tw] none empty
    by (simp add: resolve_key)
qed

theorem resolve_table_and_default_witness:
  "map_of ESPEAK_LANG_MAP (str ''fr'') = Some (str ''fr-fr'') \<and>
   resolve_espeak_language id (Some (str ''fr'')) = str ''fr-fr''"
proof -
  have h: "map_of ESPEAK_LANG_MAP (str ''fr'') = Some (str ''fr-fr'')"
    by (simp add: ESPEAK_LANG_MAP_def str_def)
  show ?thesis
    using h resolve_table_and_default [of "str ''fr''" "str ''fr-fr''" id] by simp
qed

text \<open>
  Claim C2, as stated: for every non-empty hint the resolver returns what the chain
  normalise, look up, retry with the base subtag, pass through gives. It fails for a
  hint of white space only, here one space: the normalised code is empty, has no match
  and no hyphen, so the chain passes the empty string through, while the source returns
  "en-us" (\<open>if not normalised: return "en-us"\<close>).
\<close>

theorem resolve_blank_hint_counterexample:
  "str '' '' \<noteq> [] \<and>
   resolve_espeak_language id (Some (str '' '')) = str ''en-us'' \<and>
   resolve_as_specified id (str '' '') = [] \<and>
   resolve_espeak_language id (Some (str '' '')) \<noteq> resolve_as_specified id (str '' '')"
  by (simp add: resolver_defs resolve_as_specified_def)

text \<open>
  Claim C2, amended. For every non-empty hint the normalised code is the hint in lower
  case, stripped of surrounding white space, with underscores replaced by hyphens: it
  has no underscore, no white space at either end and, for an ASCII hint, no capital
  letter. When the normalised code is empty the resolver returns "en-us". Otherwise it
  returns the table's value for the normalised code; without an exact match and with a
  hyphen in the code, the table's value for the part before the first hyphen; and the
  normalised code itself when neither is in the table. So "DE_at" is normalised to
  "de-at", which is not a key, and gives the table's value for "de"; and "xx-yy" is
  returned unchanged.
\<close>

theorem resolve_normalised:
  assumes "h \<noteq> []" and "normalise_lang_code ul (Some h) = Some n"
  shows "n = replace 0x5F 0x2D (strip (lower ul h)) \<and>
         0x5F \<notin> set n \<and>
         (n = [] \<or> trimmed n) \<and>
         (list_all (\<lambda>c. c < 0x80) h \<longrightarrow> (\<forall>c\<in>set n. \<not> (0x41 \<le> c \<and> c \<le> 0x5A))) \<and>
         (n = [] \<longrightarrow> resolve_espeak_language ul (Some h) = str ''en-us'') \<and>
         (n \<noteq> [] \<longrightarrow> resolve_espeak_language ul (Some h) = resolve_as_specified ul h) \<and>
         normalise_lang_code ul (Some (str ''DE_at'')) = Some (str ''de-at'') \<and>
         map_of ESPEAK_LANG_MAP (str ''de-at'') = None \<and>
         map_of ESPEAK_LANG_MAP (str ''de'') = Some (resolve_espeak_language ul (Some (str ''DE_at''))) \<and>
         resolve_espeak_language ul (Some (str ''xx-yy'')) = str ''xx-yy''"
proof -
  have n: "n = replace 0x5F 0x2D (strip (lower ul h))"
    using assms(2) by (simp add: normalise_lang_code_def)
  have 1: "0x5F \<notin> set n"
    by (auto simp: n replace_def)
  have 2: "n = [] \<or> trimmed n"
  proof (cases "strip (lower ul h) = []")
    case True
    then show ?thesis by (simp add: n replace_def)
  next
    case False
    then have "trimmed (strip (lower ul h))" by (rule strip_trimmed)
    then show ?thesis unfolding n by (intro disjI2 replace_trimmed)
  qed
  have 3: "list_all (\<lambda>c. c < 0x80) h \<longrightarrow> (\<forall>c\<in>set n. \<not> (0x41 \<le> c \<and> c \<le> 0x5A))"
  proof (intro impI ballI)
    fix c
    assume a: "list_all (\<lambda>c. c < 0x80) h" and c: "c \<in> set n"
    from c obtain d where d: "d \<in> set (strip (lower ul h))" and cd: "c = (if d = 0x5F then 0x2D else d)"
      by (auto simp: n replace_def)
    from d set_strip have "d \<in> set (lower ul h)" by blast
    with a obtain e where "d = ascii_lower e"
      by (auto simp: lower_def)
    then have "\<not> (0x41 \<le> d \<and> d \<le> 0x5A)"
      by (simp add: ascii_lower_def)
    with cd show "\<not> (0x41 \<le> c \<and> c \<le> 0x5A)"
      by (simp split: if_splits)
  qed
  have 4: "n = [] \<longrightarrow> resolve_espeak_language ul (Some h) = str ''en-us''"
    using assms(1) by (simp add: resolve_espeak_language_def normalise_lang_code_def n)
  have 5: "n \<noteq> [] \<longrightarrow> resolve_espeak_language ul (Some h) = resolve_as_specified ul h"
    using assms(1)
    by (simp add: resolve_espeak_language_def normalise_lang_code_def n
        resolve_as_specified_def Let_def split: option.splits)
  have 6: "normalise_lang_code ul (Some (str ''DE_at'')) = Some (str ''de-at'')"
    by (simp add: resolver_defs)
  have 7: "map_of ESPEAK_LANG_MAP (str ''de-at'') = None"
    by (simp add: ESPEAK_LANG_MAP_def str_def)
  have 8: "map_of ESPEAK_LANG_MAP (str ''de'') = Some (resolve_espeak_language ul (Some (str ''DE_at'')))"
    by (simp add: resolver_defs)
  have 9: "resolve_espeak_language ul (Some (str ''xx-yy'')) = str ''xx-yy''"
    by (simp add: resolver_defs)
  from n 1 2 3 4 5 6 7 8 9 show ?thesis by blast
qed

theorem resolve_normalised_witness:
  "str '' Pt_Br'' \<noteq> [] \<and>
   normalise_lang_code id (Some (str '' Pt_Br'')) = Some (str ''pt-br'') \<and>
   list_all (\<lambda>c. c < 0x80) (str '' Pt_Br'') \<and>
   str ''pt-br'' \<noteq> [] \<and>
   resolve_espeak_language id (Some (str '' Pt_Br'')) = resolve_as_specified id (str '' Pt_Br'') \<and>
   resolve_espeak_language id (Some (str '' Pt_Br'')) = str ''pt-br''"
proof -
  have h: "str '' Pt_Br'' \<noteq> []"
    by (simp add: str_def)
  have n: "normalise_lang_code id (Some (str '' Pt_Br'')) = Some (str ''pt-br'')"
    by (simp add: resolver_defs)
  have a: "list_all (\<lambda>c. c < 0x80) (str '' Pt_Br'')"
    by (simp add: str_def)
  have ne: "str ''pt-br'' \<noteq> []"
    by (simp add: str_def)
  have s: "resolve_as_specified id (str '' Pt_Br'') = str ''pt-br''"
    by (simp add: resolver_defs resolve_as_specified_def)
  show ?thesis
    using h n a ne s resolve_normalised [OF h n] by simp
qed

section \<open>Properties of the phonemization adapter\<close>

lemma phonemize_text_Inr:
  assumes "phonemize_text w t l tr = (Inr out, tr')"
  shows "(strip t = [] \<and> out = [] \<and> tr' = tr) \<or>
         (strip t \<noteq> [] \<and> phonemize w t l = Inr out \<and> tr' = tr @ [Phonemize t l])"
  using assms
  by (auto simp: phonemize_text_def split: if_splits sum.splits pyexc.splits)

lemma phonemize_text_trace:
  assumes "phonemize_text w t l tr = (r, tr')"
  shows "\<exists>evs. tr' = tr @ evs \<and> set evs \<subseteq> {Phonemize t l}"
  using assms
  by (auto simp: phonemize_text_def split: if_splits sum.splits pyexc.splits)

text \<open>
  Claim C7. For a text whose stripped form is empty (the empty string, or white space
  only) the adapter returns the empty string and the record of calls is unchanged: the
  engine is not invoked.
\<close>

theorem blank_text_not_phonemized:
  assumes "strip txt = []"
  shows "phonemize_text w txt lang tr = (Inr [], tr)"
  using assms by (simp add: phonemize_text_def)

theorem blank_text_not_phonemized_witness:
  "strip (str ''  '') = [] \<and> strip [] = [] \<and>
   phonemize_text failing_world (str ''  '') (str ''en-us'') [] = (Inr [], []) \<and>
   phonemize_text failing_world [] (str ''en-us'') [] = (Inr [], [])"
proof -
  have a: "strip (str ''  '') = []" by (simp add: strip_def isspace_def str_def)
  have b: "strip [] = []" by (simp add: strip_def)
  show ?thesis
    using a b blank_text_not_phonemized [OF a, of failing_world "str ''en-us''" "[]"]
      blank_text_not_phonemized [OF b, of failing_world "str ''en-us''" "[]"]
    by simp
qed

text \<open>
  Claim C8. When the engine is invoked (the text is not blank) and raises a
  \<open>RuntimeError\<close>, the adapter raises a \<open>RuntimeError\<close> whose message says that
  phonemization failed, asks to ensure that espeak-ng is installed and that the
  language is supported, and quotes the language code in use; its cause is the engine's
  exception. It raises, so no string is returned.
\<close>

theorem engine_failure_wrapped:
  assumes "strip txt \<noteq> []"
    and "phonemize w txt lang = Inl (RuntimeError m c)"
  shows "phonemize_text w txt lang tr =
           (Inl (RuntimeError
                  (str ''Failed to phonemize text. Ensure espeak-ng is installed and the language ''
                   @ [0x27] @ lang @ [0x27] @ str '' is supported.'')
                  (Some (RuntimeError m c))),
            tr @ [Phonemize txt lang])"
  using assms by (simp add: phonemize_text_def phonemize_failed_def)

theorem engine_failure_wrapped_witness:
  "strip (str ''Hello'') \<noteq> [] \<and>
   phonemize failing_world (str ''Hello'') (str ''xx'') =
     Inl (RuntimeError (str ''espeak not installed'') None) \<and>
   phonemize_text failing_world (str ''Hello'') (str ''xx'') [] =
     (Inl (RuntimeError
            (str ''Failed to phonemize text. Ensure espeak-ng is installed and the language ''
             @ [0x27] @ str ''xx'' @ [0x27] @ str '' is supported.'')
            (Some (RuntimeError (str ''espeak not installed'') None))),
      [Phonemize (str ''Hello'') (str ''xx'')])"
proof -
  have a: "strip (str ''Hello'') \<noteq> []" by (simp add: strip_def isspace_def str_def)
  have b: "phonemize failing_world (str ''Hello'') (str ''xx'') =
     Inl (RuntimeError (str ''espeak not installed'') None)"
    by (simp add: failing_world_def)
  show ?thesis
    using a b engine_failure_wrapped [OF a b, of "[]"] by simp
qed

section \<open>Properties of the segment loop\<close>

lemma segment_loop_Inr:
  assumes "segment_loop w code it segs parts tr = (Inr (segs', parts'), tr')"
  shows "completes it \<and>
         (\<exists>S. segs' = segs @ S \<and> list_all2 (segment_of w code) S (kept (yielded it))) \<and>
         parts' = parts @ map (\<lambda>s. strip (raw_text s)) (kept (yielded it)) \<and>
         tr' = tr @ map (\<lambda>s. Phonemize (strip (raw_text s)) code) (kept (yielded it))"
  using assms
proof (induction it arbitrary: segs parts tr)
  case StopIteration
  then show ?case by (simp add: kept_def)
next
  case (Raise e)
  then show ?case by simp
next
  case (Yield s rest)
  show ?case
  proof (cases "strip (raw_text s) = []")
    case True
    with Yield.prems have "segment_loop w code rest segs parts tr = (Inr (segs', parts'), tr')"
      by simp
    from Yield.IH [OF this] True show ?thesis by (simp add: kept_def)
  next
    case False
    let ?t = "strip (raw_text s)"
    obtain r tr1 where p: "phonemize_text w ?t code tr = (r, tr1)" by (cases "phonemize_text w ?t code tr")
    with Yield.prems False obtain out where r: "r = Inr out"
      by (cases r) (simp_all add: Let_def)
    let ?seg = "\<lparr>seg_start = raw_start s, seg_end = raw_end s, seg_text = ?t, seg_ipa = out,
                 seg_avg_logprob = raw_avg_logprob s, seg_no_speech_prob = raw_no_speech_prob s\<rparr>"
    from Yield.prems False p r
    have rec: "segment_loop w code rest (segs @ [?seg]) (parts @ [?t]) tr1 = (Inr (segs', parts'), tr')"
      by (simp add: Let_def)
    have "strip ?t \<noteq> []" using False by (simp add: strip_strip)
    with phonemize_text_Inr [OF p [unfolded r]]
    have ph: "phonemize w ?t code = Inr out" and tr1: "tr1 = tr @ [Phonemize ?t code]" by simp_all
    have so: "segment_of w code ?seg s" using ph by (simp add: segment_of_def)
    from Yield.IH [OF rec] obtain S where
      c: "completes rest" and S: "segs' = (segs @ [?seg]) @ S"
      and l: "list_all2 (segment_of w code) S (kept (yielded rest))"
      and pp: "parts' = (parts @ [?t]) @ map (\<lambda>s. strip (raw_text s)) (kept (yielded rest))"
      and tt: "tr' = tr1 @ map (\<lambda>s. Phonemize (strip (raw_text s)) code) (kept (yielded rest))"
      by blast
    have "segs' = segs @ (?seg # S) \<and> list_all2 (segment_of w code) (?seg # S) (kept (yielded (Yield s rest)))"
      using S l so False by (simp add: kept_def)
    then have "\<exists>S. segs' = segs @ S \<and> list_all2 (segment_of w code) S (kept (yielded (Yield s rest)))"
      by blast
    then show ?thesis using c pp tt tr1 False by (simp add: kept_def)
  qed
qed

lemma segment_loop_trace:
  assumes "segment_loop w code it segs parts tr = (r, tr')"
  shows "\<exists>evs. tr' = tr @ evs \<and> (\<forall>ev\<in>set evs. \<exists>t. ev = Phonemize t code)"
  using assms
proof (induction it arbitrary: segs parts tr)
  case (Yield s rest)
  show ?case
  proof (cases "strip (raw_text s) = []")
    case True
    with Yield.prems Yield.IH show ?thesis by simp
  next
    case False
    let ?t = "strip (raw_text s)"
    obtain r1 tr1 where p: "phonemize_text w ?t code tr = (r1, tr1)" by (cases "phonemize_text w ?t code tr")
    from phonemize_text_trace [OF p] obtain e1 where
      e1: "tr1 = tr @ e1" "set e1 \<subseteq> {Phonemize ?t code}" by blast
    show ?thesis
    proof (cases r1)
      case (Inl e)
      with Yield.prems False p have "tr' = tr1" by (simp add: Let_def)
      with e1 show ?thesis by auto
    next
      case (Inr out)
      with Yield.prems False p obtain sg pt where
        "segment_loop w code rest sg pt tr1 = (r, tr')" by (simp add: Let_def)
      from Yield.IH [OF this] obtain e2 where
        "tr' = tr1 @ e2" "\<forall>ev\<in>set e2. \<exists>t. ev = Phonemize t code" by blast
      with e1 have "tr' = tr @ (e1 @ e2) \<and> (\<forall>ev\<in>set (e1 @ e2). \<exists>t. ev = Phonemize t code)"
        by auto
      then show ?thesis by blast
    qed
  qed
qed auto

section \<open>Properties of the orchestrator\<close>

lemmas stub_defs = stub_world_def stub_engine_def stub_segment_def stub_info_def default_args_def
  hello_raws_def hi_there_raws_def failing_world_def

lemmas pipeline_defs = transcribe_audio_to_ipa_def recognizer_output_def ipa_code_def
  recognised_language_def truthy_def selected_compute_type_def phonemize_text_def
  path_exists_def ignore_error_def

lemma transcribe_Inr:
  assumes "transcribe_audio_to_ipa w a = (Inr res, tr)"
  obtains it info segs parts tr3 where
    "path_exists w (Path w (arg_audio_path a)) = Inr True"
    "WhisperModel w (arg_model_size a) (arg_device a) (selected_compute_type a) = None"
    "recognizer_output w a = Inr (it, info)"
    "segment_loop w (ipa_code w a info) it [] []
       [LoadModel (arg_model_size a) (arg_device a) (selected_compute_type a),
        Transcribe (Path w (arg_audio_path a)) (arg_language a) (arg_vad_filter a)] = (Inr (segs, parts), tr3)"
    "(if strip (join (str '' '') parts) \<noteq> []
      then phonemize_text w (strip (join (str '' '') parts)) (ipa_code w a info) tr3
      else (Inr [], tr3)) = (Inr (ipa res), tr)"
    "res = \<lparr>audio_path = Path w (arg_audio_path a),
            full_text = strip (join (str '' '') parts),
            ipa = ipa res, segments = segs,
            language = recognised_language a info,
            language_confidence = info_language_probability info,
            duration = info_duration info,
            model_size = arg_model_size a,
            ipa_language = ipa_code w a info\<rparr>"
  using assms
  unfolding transcribe_audio_to_ipa_def Let_def
  by (auto split: if_splits option.splits sum.splits prod.splits bool.splits)

lemma transcribe_trace:
  assumes "transcribe_audio_to_ipa w a = (r, tr)" and "Phonemize t l \<in> set tr"
  shows "\<exists>it info. recognizer_output w a = Inr (it, info) \<and> l = ipa_code w a info"
proof -
  let ?tr2 = "[LoadModel (arg_model_size a) (arg_device a) (selected_compute_type a),
        Transcribe (Path w (arg_audio_path a)) (arg_language a) (arg_vad_filter a)]"
  from assms obtain it info where pe: "path_exists w (Path w (arg_audio_path a)) = Inr True"
    and wm: "WhisperModel w (arg_model_size a) (arg_device a) (selected_compute_type a) = None"
    and rec: "recognizer_output w a = Inr (it, info)"
    unfolding transcribe_audio_to_ipa_def Let_def
    by (auto split: if_splits option.splits sum.splits prod.splits bool.splits)
  let ?code = "ipa_code w a info"
  obtain r3 tr3 where loop: "segment_loop w ?code it [] [] ?tr2 = (r3, tr3)"
    by (cases "segment_loop w ?code it [] [] ?tr2")
  from segment_loop_trace [OF loop] obtain e3 where
    e3: "tr3 = ?tr2 @ e3" "\<forall>ev\<in>set e3. \<exists>t. ev = Phonemize t ?code" by blast
  have "\<exists>e4. tr = tr3 @ e4 \<and> (\<forall>ev\<in>set e4. \<exists>t. ev = Phonemize t ?code)"
  proof (cases r3)
    case (Inl e)
    with assms(1) pe wm rec loop have "tr = tr3"
      unfolding transcribe_audio_to_ipa_def Let_def
      by simp
    then show ?thesis by simp
  next
    case (Inr sp)
    obtain segs parts where sp: "sp = (segs, parts)" by (cases sp)
    let ?tj = "strip (join (str '' '') parts)"
    show ?thesis
    proof (cases "?tj = []")
      case True
      with assms(1) pe wm rec loop Inr sp have "tr = tr3"
        unfolding transcribe_audio_to_ipa_def Let_def
        by simp
      then show ?thesis by simp
    next
      case False
      obtain r4 tr4 where p: "phonemize_text w ?tj ?code tr3 = (r4, tr4)"
        by (cases "phonemize_text w ?tj ?code tr3")
      with assms(1) pe wm rec loop Inr sp False have "tr = tr4"
        unfolding transcribe_audio_to_ipa_def Let_def
        by (auto split: sum.splits)
      with phonemize_text_trace [OF p] show ?thesis by auto
    qed
  qed
  then obtain e4 where "tr = tr3 @ e4" "\<forall>ev\<in>set e4. \<exists>t. ev = Phonemize t ?code" by blast
  with e3 assms(2) have "l = ?code" by auto
  with rec show ?thesis by blast
qed

lemma transcribe_Inr_fields:
  assumes run: "transcribe_audio_to_ipa w a = (Inr res, tr)"
    and rec: "recognizer_output w a = Inr (it, info)"
  shows "completes it"
    and "list_all2 (segment_of w (ipa_code w a info)) (segments res) (kept (yielded it))"
    and "full_text res = join (str '' '') (map (\<lambda>s. strip (raw_text s)) (kept (yielded it)))"
    and "language res = recognised_language a info"
    and "ipa_language res = ipa_code w a info"
    and "full_text res \<noteq> [] \<Longrightarrow> phonemize w (full_text res) (ipa_code w a info) = Inr (ipa res)"
    and "full_text res \<noteq> [] \<Longrightarrow> Phonemize (full_text res) (ipa_code w a info) \<in> set tr"
    and "full_text res = [] \<Longrightarrow> ipa res = []"
    and "language_confidence res = info_language_probability info"
    and "duration res = info_duration info"
proof -
  from run obtain it' info' segs parts tr3 where
    rec': "recognizer_output w a = Inr (it', info')"
    and loop': "segment_loop w (ipa_code w a info') it' [] []
       [LoadModel (arg_model_size a) (arg_device a) (selected_compute_type a),
        Transcribe (Path w (arg_audio_path a)) (arg_language a) (arg_vad_filter a)] = (Inr (segs, parts), tr3)"
    and full': "(if strip (join (str '' '') parts) \<noteq> []
      then phonemize_text w (strip (join (str '' '') parts)) (ipa_code w a info') tr3
      else (Inr [], tr3)) = (Inr (ipa res), tr)"
    and res': "res = \<lparr>audio_path = Path w (arg_audio_path a),
            full_text = strip (join (str '' '') parts),
            ipa = ipa res, segments = segs,
            language = recognised_language a info',
            language_confidence = info_language_probability info',
            duration = info_duration info',
            model_size = arg_model_size a,
            ipa_language = ipa_code w a info'\<rparr>"
    by (rule transcribe_Inr)
  from rec rec' have eq: "it' = it" "info' = info" by simp_all
  let ?code = "ipa_code w a info"
  let ?texts = "map (\<lambda>s. strip (raw_text s)) (kept (yielded it))"
  from segment_loop_Inr [OF loop' [unfolded eq]]
  have c: "completes it"
    and s: "list_all2 (segment_of w ?code) segs (kept (yielded it))"
    and p: "parts = ?texts"
    by auto
  have "\<forall>p\<in>set ?texts. trimmed p"
    by (auto simp: kept_def strip_trimmed)
  then have j: "strip (join (str '' '') ?texts) = join (str '' '') ?texts"
    by (rule strip_join)
  have ft: "full_text res = join (str '' '') ?texts"
    by (subst res') (simp add: p j)
  have "full_text res = strip (join (str '' '') parts)"
    by (subst res') simp
  then have fs: "strip (join (str '' '') parts) = full_text res"
    by (rule sym)
  have ss: "strip (full_text res) = full_text res"
    using fs strip_strip [of "join (str '' '') parts"] by simp
  show "completes it" by (rule c)
  show "list_all2 (segment_of w ?code) (segments res) (kept (yielded it))"
    by (subst res') (simp add: s)
  show "full_text res = join (str '' '') ?texts" by (rule ft)
  show "language res = recognised_language a info"
    by (subst res') (simp add: eq)
  show "ipa_language res = ?code"
    by (subst res') (simp add: eq)
  show "language_confidence res = info_language_probability info"
    by (subst res') (simp add: eq)
  show "duration res = info_duration info"
    by (subst res') (simp add: eq)
  {
    assume ne: "full_text res \<noteq> []"
    with full' fs eq have pt: "phonemize_text w (full_text res) ?code tr3 = (Inr (ipa res), tr)"
      by simp
    from phonemize_text_Inr [OF pt] ne ss
    have "phonemize w (full_text res) ?code = Inr (ipa res) \<and> tr = tr3 @ [Phonemize (full_text res) ?code]"
      by simp
  }
  then show "full_text res \<noteq> [] \<Longrightarrow> phonemize w (full_text res) ?code = Inr (ipa res)"
    and "full_text res \<noteq> [] \<Longrightarrow> Phonemize (full_text res) ?code \<in> set tr"
    by simp_all
  show "full_text res = [] \<Longrightarrow> ipa res = []"
    using full' fs by simp
qed

lemma phonemize_text_lower:
  "phonemize_text (w\<lparr>unicode_lower := f\<rparr>) t l tr = phonemize_text w t l tr"
  by (simp add: phonemize_text_def)

lemma segment_loop_lower:
  "segment_loop (w\<lparr>unicode_lower := f\<rparr>) code it segs parts tr = segment_loop w code it segs parts tr"
  by (induction it arbitrary: segs parts tr)
    (simp_all add: phonemize_text_lower Let_def split: prod.splits sum.splits)

lemma hello_rec:
  "recognizer_output (stub_world hello_raws) (default_args (str ''hello.wav'')) =
     Inr (of_list hello_raws, stub_info)"
  by (simp add: recognizer_output_def stub_world_def)

lemma hello_run:
  "transcribe_audio_to_ipa (stub_world hello_raws) (default_args (str ''hello.wav'')) =
     (Inr \<lparr>audio_path = str ''hello.wav'', full_text = str ''Hello'', ipa = str ''/Hello/'',
           segments = [\<lparr>seg_start = 0, seg_end = 1.2, seg_text = str ''Hello'',
                        seg_ipa = str ''/Hello/'', seg_avg_logprob = None,
                        seg_no_speech_prob = None\<rparr>],
           language = str ''en'', language_confidence = Some 0.95, duration = Some 2.0,
           model_size = str ''small'', ipa_language = str ''en-us''\<rparr>,
      [LoadModel (str ''small'') (str ''cpu'') (str ''int8''),
       Transcribe (str ''hello.wav'') None True,
       Phonemize (str ''Hello'') (str ''en-us''),
       Phonemize (str ''Hello'') (str ''en-us'')])"
  by (simp add: stub_defs pipeline_defs resolver_defs Let_def)

lemma hi_there_rec:
  "recognizer_output (stub_world hi_there_raws) (default_args (str ''hello.wav'')) =
     Inr (of_list hi_there_raws, stub_info)"
  by (simp add: recognizer_output_def stub_world_def)

lemma hi_there_run:
  "transcribe_audio_to_ipa (stub_world hi_there_raws) (default_args (str ''hello.wav'')) =
     (Inr \<lparr>audio_path = str ''hello.wav'', full_text = str ''Hi there'', ipa = str ''/Hi there/'',
           segments = [\<lparr>seg_start = 0, seg_end = 1, seg_text = str ''Hi'',
                        seg_ipa = str ''/Hi/'', seg_avg_logprob = None,
                        seg_no_speech_prob = None\<rparr>,
                       \<lparr>seg_start = 2, seg_end = 3, seg_text = str ''there'',
                        seg_ipa = str ''/there/'', seg_avg_logprob = None,
                        seg_no_speech_prob = None\<rparr>],
           language = str ''en'', language_confidence = Some 0.95, duration = Some 2.0,
           model_size = str ''small'', ipa_language = str ''en-us''\<rparr>,
      [LoadModel (str ''small'') (str ''cpu'') (str ''int8''),
       Transcribe (str ''hello.wav'') None True,
       Phonemize (str ''Hi'') (str ''en-us''),
       Phonemize (str ''there'') (str ''en-us''),
       Phonemize (str ''Hi there'') (str ''en-us'')])"
  by (simp add: stub_defs pipeline_defs resolver_defs Let_def)

lemma override_run:
  "transcribe_audio_to_ipa (stub_world hello_raws)
     ((default_args (str ''hello.wav'')) \<lparr>arg_ipa_language := Some (str ''EN_US'')\<rparr>) =
     (Inr \<lparr>audio_path = str ''hello.wav'', full_text = str ''Hello'', ipa = str ''/Hello/'',
           segments = [\<lparr>seg_start = 0, seg_end = 1.2, seg_text = str ''Hello'',
                        seg_ipa = str ''/Hello/'', seg_avg_logprob = None,
                        seg_no_speech_prob = None\<rparr>],
           language = str ''en'', language_confidence = Some 0.95, duration = Some 2.0,
           model_size = str ''small'', ipa_language = str ''EN_US''\<rparr>,
      [LoadModel (str ''small'') (str ''cpu'') (str ''int8''),
       Transcribe (str ''hello.wav'') None True,
       Phonemize (str ''Hello'') (str ''EN_US''),
       Phonemize (str ''Hello'') (str ''EN_US'')])"
  by (simp add: stub_defs pipeline_defs resolver_defs Let_def)




text \<open>
  Claim C3. In a run that returns a result, the sequence of raw segments has been
  consumed to its end; the segments of the result are, in order and one for one, the
  raw segments whose stripped text is not empty, each with its stripped text; no
  segment of the result has a blank text; and the text of the result is the texts of
  its segments joined by single spaces.
\<close>

theorem aggregation_keeps_nonblank_segments:
  assumes "transcribe_audio_to_ipa w a = (Inr res, tr)"
    and "recognizer_output w a = Inr (it, info)"
  shows "list_all2 (segment_of w (ipa_language res)) (segments res) (kept (yielded it)) \<and>
         map seg_text (segments res) = map (\<lambda>s. strip (raw_text s)) (kept (yielded it)) \<and>
         (\<forall>seg\<in>set (segments res). strip (seg_text seg) \<noteq> []) \<and>
         full_text res = join (str '' '') (map seg_text (segments res)) \<and>
         completes it"
proof -
  note f = transcribe_Inr_fields [OF assms]
  have l: "list_all2 (segment_of w (ipa_language res)) (segments res) (kept (yielded it))"
    using f(2) f(5) by simp
  have "list_all2 (\<lambda>seg raw. seg_text seg = strip (raw_text raw)) (segments res) (kept (yielded it))"
    using l by (rule list_all2_mono) (simp add: segment_of_def)
  then have m: "map seg_text (segments res) = map (\<lambda>s. strip (raw_text s)) (kept (yielded it))"
    by (simp add: list_all2_conv_all_nth list_eq_iff_nth_eq)
  have "\<forall>t\<in>set (map seg_text (segments res)). strip t \<noteq> []"
    unfolding m by (auto simp: kept_def strip_strip)
  then have n: "\<forall>seg\<in>set (segments res). strip (seg_text seg) \<noteq> []"
    by simp
  show ?thesis
    using l m n f(1) f(3) by simp
qed

theorem aggregation_keeps_nonblank_segments_witness:
  "(case transcribe_audio_to_ipa (stub_world hi_there_raws) (default_args (str ''hello.wav'')) of
      (Inr res, tr) \<Rightarrow>
        recognizer_output (stub_world hi_there_raws) (default_args (str ''hello.wav'')) =
          Inr (of_list hi_there_raws, stub_info) \<and>
        map (\<lambda>s. strip (raw_text s)) (kept (yielded (of_list hi_there_raws))) =
          [str ''Hi'', str ''there''] \<and>
        map seg_text (segments res) = [str ''Hi'', str ''there''] \<and>
        full_text res = str ''Hi there''
    | (Inl e, tr) \<Rightarrow> False)"
proof -
  have k: "map (\<lambda>s. strip (raw_text s)) (kept (yielded (of_list hi_there_raws))) =
          [str ''Hi'', str ''there'']"
    by (simp add: stub_defs kept_def strip_def isspace_def str_def)
  show ?thesis
    using aggregation_keeps_nonblank_segments [OF hi_there_run hi_there_rec] hi_there_rec k
    by (simp add: hi_there_run)
qed

text \<open>
  Claim C4. In a run that returns a result, the \<open>language\<close> field is the caller's
  \<open>language\<close> when one is given (a string that is not empty), else the language the
  recognizer detected, else the empty string. The \<open>ipa_language\<close> field is the
  caller's \<open>ipa_language\<close> when one is given, else what the resolver returns for the
  \<open>language\<close> field; and every call of the phonemization engine in the run has that
  code as its language. With no overrides and the detected language "en", the fields
  are "en" and "en-us".
\<close>

theorem result_language_fields:
  assumes "transcribe_audio_to_ipa w a = (Inr res, tr)"
    and "recognizer_output w a = Inr (it, info)"
  shows "(\<forall>l. arg_language a = Some l \<and> l \<noteq> [] \<longrightarrow> language res = l) \<and>
         (\<not> truthy (arg_language a) \<longrightarrow>
            (\<forall>d. info_language info = Some d \<longrightarrow> language res = d) \<and>
            (info_language info = None \<longrightarrow> language res = [])) \<and>
         (\<forall>c. arg_ipa_language a = Some c \<and> c \<noteq> [] \<longrightarrow> ipa_language res = c) \<and>
         (\<not> truthy (arg_ipa_language a) \<longrightarrow>
            ipa_language res = resolve_espeak_language (unicode_lower w) (Some (language res))) \<and>
         (\<forall>t l. Phonemize t l \<in> set tr \<longrightarrow> l = ipa_language res) \<and>
         (arg_language a = None \<and> arg_ipa_language a = None \<and> info_language info = Some (str ''en'')
            \<longrightarrow> language res = str ''en'' \<and> ipa_language res = str ''en-us'')"
proof -
  note f = transcribe_Inr_fields [OF assms]
  have lang: "language res = recognised_language a info" by (rule f(4))
  have code: "ipa_language res = ipa_code w a info" by (rule f(5))
  have 1: "\<forall>l. arg_language a = Some l \<and> l \<noteq> [] \<longrightarrow> language res = l"
    by (simp add: lang recognised_language_def truthy_def)
  have 2: "\<not> truthy (arg_language a) \<longrightarrow>
            (\<forall>d. info_language info = Some d \<longrightarrow> language res = d) \<and>
            (info_language info = None \<longrightarrow> language res = [])"
    by (auto simp: lang recognised_language_def truthy_def)
  have 3: "\<forall>c. arg_ipa_language a = Some c \<and> c \<noteq> [] \<longrightarrow> ipa_language res = c"
    by (simp add: code ipa_code_def truthy_def)
  have 4: "\<not> truthy (arg_ipa_language a) \<longrightarrow>
            ipa_language res = resolve_espeak_language (unicode_lower w) (Some (language res))"
    by (simp add: code lang ipa_code_def)
  have 5: "\<forall>t l. Phonemize t l \<in> set tr \<longrightarrow> l = ipa_language res"
  proof (intro allI impI)
    fix t l
    assume "Phonemize t l \<in> set tr"
    from transcribe_trace [OF assms(1) this] assms(2) show "l = ipa_language res"
      by (simp add: code)
  qed
  have en: "resolve_espeak_language (unicode_lower w) (Some (str ''en'')) = str ''en-us''"
    by (simp add: resolver_defs)
  have 6: "arg_language a = None \<and> arg_ipa_language a = None \<and> info_language info = Some (str ''en'')
            \<longrightarrow> language res = str ''en'' \<and> ipa_language res = str ''en-us''"
  proof
    assume h: "arg_language a = None \<and> arg_ipa_language a = None \<and> info_language info = Some (str ''en'')"
    then have t: "\<not> truthy (arg_language a)" "\<not> truthy (arg_ipa_language a)"
      by (simp_all add: truthy_def)
    from 2 t h have l: "language res = str ''en''" by simp
    from 4 t have "ipa_language res = resolve_espeak_language (unicode_lower w) (Some (language res))"
      by simp
    with l en show "language res = str ''en'' \<and> ipa_language res = str ''en-us''" by simp
  qed
  from 1 2 3 4 5 6 show ?thesis by blast
qed

theorem result_language_fields_witness:
  "(case transcribe_audio_to_ipa (stub_world hello_raws) (default_args (str ''hello.wav'')) of
      (Inr res, tr) \<Rightarrow>
        recognizer_output (stub_world hello_raws) (default_args (str ''hello.wav'')) =
          Inr (of_list hello_raws, stub_info) \<and>
        arg_language (default_args (str ''hello.wav'')) = None \<and>
        arg_ipa_language (default_args (str ''hello.wav'')) = None \<and>
        info_language stub_info = Some (str ''en'') \<and>
        language res = str ''en'' \<and> ipa_language res = str ''en-us'' \<and>
        Phonemize (str ''Hello'') (str ''en-us'') \<in> set tr
    | (Inl e, tr) \<Rightarrow> False)"
  using result_language_fields [OF hello_run hello_rec] hello_rec
  by (simp add: hello_run) (simp add: default_args_def stub_info_def)

text \<open>
  Claim C6. In a run that returns a result, the \<open>ipa\<close> field is what the engine
  returned for the full text and the code in \<open>ipa_language\<close> when the full text is
  not empty (and that call is in the record of calls), and the empty string when the
  full text is empty; in both cases it is what the adapter returns for the full text.
  It need not be the concatenation of the segments' IPA, with or without spaces: the
  run of the stub engines on the segments "Hi" and "there" is an example.
\<close>

theorem full_ipa_from_full_text:
  assumes "transcribe_audio_to_ipa w a = (Inr res, tr)"
    and "recognizer_output w a = Inr (it, info)"
  shows "(full_text res \<noteq> [] \<longrightarrow>
            phonemize w (full_text res) (ipa_language res) = Inr (ipa res) \<and>
            Phonemize (full_text res) (ipa_language res) \<in> set tr) \<and>
         (full_text res = [] \<longrightarrow> ipa res = []) \<and>
         fst (phonemize_text w (full_text res) (ipa_language res) tr0) = Inr (ipa res) \<and>
         (\<exists>res' tr'.
            transcribe_audio_to_ipa (stub_world hi_there_raws) (default_args (str ''hello.wav'')) =
              (Inr res', tr') \<and>
            ipa res' \<noteq> concat (map seg_ipa (segments res')) \<and>
            ipa res' \<noteq> join (str '' '') (map seg_ipa (segments res')))"
proof -
  note f = transcribe_Inr_fields [OF assms]
  have code: "ipa_language res = ipa_code w a info" by (rule f(5))
  have 1: "full_text res \<noteq> [] \<longrightarrow>
            phonemize w (full_text res) (ipa_language res) = Inr (ipa res) \<and>
            Phonemize (full_text res) (ipa_language res) \<in> set tr"
    using f(6) f(7) by (simp add: code)
  have 2: "full_text res = [] \<longrightarrow> ipa res = []"
    using f(8) by simp
  have st: "strip (full_text res) = full_text res"
  proof -
    have "\<forall>p\<in>set (map (\<lambda>s. strip (raw_text s)) (kept (yielded it))). trimmed p"
      by (auto simp: kept_def strip_trimmed)
    then show ?thesis unfolding f(3) by (rule strip_join)
  qed
  have 3: "fst (phonemize_text w (full_text res) (ipa_language res) tr0) = Inr (ipa res)"
  proof (cases "full_text res = []")
    case True
    with 2 show ?thesis by (simp add: phonemize_text_def strip_Nil)
  next
    case False
    with 1 st show ?thesis by (simp add: phonemize_text_def)
  qed
  have 4: "\<exists>res' tr'.
            transcribe_audio_to_ipa (stub_world hi_there_raws) (default_args (str ''hello.wav'')) =
              (Inr res', tr') \<and>
            ipa res' \<noteq> concat (map seg_ipa (segments res')) \<and>
            ipa res' \<noteq> join (str '' '') (map seg_ipa (segments res'))"
    unfolding hi_there_run by (simp add: str_def)
  from 1 2 3 4 show ?thesis by blast
qed

theorem full_ipa_from_full_text_witness:
  "(case transcribe_audio_to_ipa (stub_world hello_raws) (default_args (str ''hello.wav'')) of
      (Inr res, tr) \<Rightarrow>
        recognizer_output (stub_world hello_raws) (default_args (str ''hello.wav'')) =
          Inr (of_list hello_raws, stub_info) \<and>
        full_text res = str ''Hello'' \<and> full_text res \<noteq> [] \<and>
        phonemize (stub_world hello_raws) (str ''Hello'') (str ''en-us'') = Inr (ipa res) \<and>
        ipa res = str ''/Hello/''
    | (Inl e, tr) \<Rightarrow> False)"
  using full_ipa_from_full_text [OF hello_run hello_rec, of "[]"] hello_rec
  by (simp add: hello_run) (simp add: str_def)

text \<open>
  Claim C10. When the caller gives a non-empty \<open>ipa_language\<close>, the code used is that
  string as it is, whatever the recognizer reports; the run does not depend on the
  resolver (replacing the case tables that the resolver consults changes nothing);
  every call of the phonemization engine has that string as its language; and the
  \<open>ipa_language\<close> field of the result is that string. So "EN_US" reaches the engine as
  "EN_US", although the resolver would map it to "en-us".
\<close>

theorem ipa_override_verbatim:
  assumes "arg_ipa_language a = Some c" and "c \<noteq> []"
  shows "ipa_code w a info = c \<and>
         transcribe_audio_to_ipa (w\<lparr>unicode_lower := f\<rparr>) a = transcribe_audio_to_ipa w a \<and>
         (\<forall>r tr t l. transcribe_audio_to_ipa w a = (r, tr) \<and> Phonemize t l \<in> set tr \<longrightarrow> l = c) \<and>
         (\<forall>res tr. transcribe_audio_to_ipa w a = (Inr res, tr) \<longrightarrow> ipa_language res = c)"
proof -
  have code: "ipa_code w a info = c" for w :: "('f, 'x) world_scheme" and info
    using assms by (simp add: ipa_code_def truthy_def)
  have 2: "transcribe_audio_to_ipa (w\<lparr>unicode_lower := f\<rparr>) a = transcribe_audio_to_ipa w a"
    by (simp add: transcribe_audio_to_ipa_def recognizer_output_def code path_exists_def
        segment_loop_lower phonemize_text_lower Let_def
        split: option.splits sum.splits prod.splits bool.splits)
  have 3: "\<forall>r tr t l. transcribe_audio_to_ipa w a = (r, tr) \<and> Phonemize t l \<in> set tr \<longrightarrow> l = c"
  proof (intro allI impI)
    fix r tr t l
    assume h: "transcribe_audio_to_ipa w a = (r, tr) \<and> Phonemize t l \<in> set tr"
    then have r: "transcribe_audio_to_ipa w a = (r, tr)" and m: "Phonemize t l \<in> set tr"
      by simp_all
    from transcribe_trace [OF r m]
    have "\<exists>it info. recognizer_output w a = Inr (it, info) \<and> l = ipa_code w a info" .
    then show "l = c" by (auto simp: code)
  qed
  have 4: "\<forall>res tr. transcribe_audio_to_ipa w a = (Inr res, tr) \<longrightarrow> ipa_language res = c"
  proof (intro allI impI)
    fix res tr
    assume h: "transcribe_audio_to_ipa w a = (Inr res, tr)"
    then obtain it info where "recognizer_output w a = Inr (it, info)"
      by (rule transcribe_Inr)
    from transcribe_Inr_fields(5) [OF h this] show "ipa_language res = c"
      by (simp add: code)
  qed
  from code 2 3 4 show ?thesis by blast
qed

theorem ipa_override_verbatim_witness:
  "arg_ipa_language ((default_args (str ''hello.wav'')) \<lparr>arg_ipa_language := Some (str ''EN_US'')\<rparr>) =
     Some (str ''EN_US'') \<and>
   str ''EN_US'' \<noteq> [] \<and>
   resolve_espeak_language id (Some (str ''EN_US'')) = str ''en-us'' \<and>
   str ''EN_US'' \<noteq> str ''en-us'' \<and>
   (case transcribe_audio_to_ipa (stub_world hello_raws)
           ((default_args (str ''hello.wav'')) \<lparr>arg_ipa_language := Some (str ''EN_US'')\<rparr>) of
      (Inr res, tr) \<Rightarrow>
        ipa_language res = str ''EN_US'' \<and>
        Phonemize (str ''Hello'') (str ''EN_US'') \<in> set tr \<and>
        [l. Phonemize t l \<leftarrow> tr] = [str ''EN_US'', str ''EN_US'']
    | (Inl e, tr) \<Rightarrow> False)"
proof -
  let ?a = "(default_args (str ''hello.wav'')) \<lparr>arg_ipa_language := Some (str ''EN_US'')\<rparr>"
  have a: "arg_ipa_language ?a = Some (str ''EN_US'')" by simp
  have b: "str ''EN_US'' \<noteq> []" by (simp add: str_def)
  have c: "resolve_espeak_language id (Some (str ''EN_US'')) = str ''en-us''"
    by (simp add: resolver_defs)
  have d: "str ''EN_US'' \<noteq> str ''en-us''" by (simp add: str_def)
  show ?thesis
    using a b c d ipa_override_verbatim [OF a b, of "stub_world hello_raws"]
    by (simp add: override_run)
qed

section \<open>Properties of the JSON round trip\<close>














































end
